theory Spec2Isabelle
  imports Complex_Main "HOL-Library.Word"
begin

unbundle bit_operations_syntax

section \<open>PCM sample conversion (LiveInterface: decodeAudioData, onaudioprocess)\<close>

text \<open>
  Bytes of a \<open>Uint8Array\<close> and elements of an \<open>Int16Array\<close> are machine words.
  A float sample is modelled by the rational number it denotes: every finite float32
  is a rational, \<open>sample / 32768.0\<close> of an int16 is exactly representable, and the
  double product \<open>x * 32768\<close> of a float32 \<open>x\<close> with \<open>\<bar>x\<bar> \<le> 1\<close> is exact (a change of
  exponent only), so no rounding step of the source is lost. NaN and the infinities are
  outside the model.
\<close>

type_synonym byte = "8 word"
type_synonym int16 = "16 word"

datatype js_error =
  RangeError | NotSupportedError | IndexSizeError | TypeError | InvalidCharacterError

text \<open>
  Storing a number into an \<open>Int16Array\<close> element applies ECMAScript's \<open>ToInt16\<close>:
  the fraction is discarded (truncation toward zero) and the integer is reduced
  modulo \<open>2^16\<close> into the signed range.
\<close>

definition js_trunc :: "rat \<Rightarrow> int" where
  "js_trunc x = (if x < 0 then - \<lfloor>- x\<rfloor> else \<lfloor>x\<rfloor>)"

definition ToInt16 :: "rat \<Rightarrow> int16" where
  "ToInt16 x = word_of_int (js_trunc x)"

text \<open>
  \<open>new Int16Array(data.buffer)\<close> reads the buffer two bytes at a time, low byte first
  (the byte order of every platform the page runs on); \<open>new Uint8Array(int16.buffer)\<close>
  is the opposite view. The constructor of the 16-bit view raises \<open>RangeError\<close> on a
  buffer of odd byte length; that check is in \<open>decodeAudioData\<close> below.
\<close>

fun int16_view :: "byte list \<Rightarrow> int16 list" where
  "int16_view (lo # hi # rest) = word_cat hi lo # int16_view rest"
| "int16_view _ = []"

definition uint8_view :: "int16 list \<Rightarrow> byte list" where
  "uint8_view xs = concat (map (\<lambda>w. [ucast w, ucast (drop_bit 8 w)]) xs)"

record AudioBuffer =
  buf_numberOfChannels :: nat
  buf_length :: nat
  buf_sampleRate :: nat
  buf_channelData :: "rat list list"

definition duration :: "AudioBuffer \<Rightarrow> rat" where
  "duration b = of_nat (buf_length b) / of_nat (buf_sampleRate b)"

definition getChannelData :: "AudioBuffer \<Rightarrow> nat \<Rightarrow> js_error + rat list" where
  "getChannelData b channel =
     (if channel < buf_numberOfChannels b then Inr (buf_channelData b ! channel)
      else Inl IndexSizeError)"

text \<open>
  \<open>decodeAudioData(data, ctx, sampleRate, numChannels)\<close>. The context argument only
  provides \<open>createBuffer\<close>, which raises \<open>NotSupportedError\<close> for a zero channel
  count, length or rate (implementation-specific upper limits are not modelled; both
  callers pass 24000 and 1). \<open>createBuffer\<close> takes the integer part of
  \<open>dataInt16.length / numChannels\<close>, and the writes of the one extra loop round that a
  fractional quotient permits fall outside the channel array and are dropped, so the
  frame count is the integer quotient.
\<close>

definition decodeAudioData :: "byte list \<Rightarrow> nat \<Rightarrow> nat \<Rightarrow> js_error + AudioBuffer" where
  "decodeAudioData data sampleRate numChannels =
     (if odd (length data) then Inl RangeError
      else
        let dataInt16 = int16_view data;
            frameCount = length dataInt16 div numChannels
        in if numChannels = 0 \<or> frameCount = 0 \<or> sampleRate = 0 then Inl NotSupportedError
           else Inr \<lparr>buf_numberOfChannels = numChannels,
                     buf_length = frameCount,
                     buf_sampleRate = sampleRate,
                     buf_channelData =
                       map (\<lambda>channel.
                              map (\<lambda>i. of_int (sint (dataInt16 ! (i * numChannels + channel))) / 32768)
                                [0..<frameCount])
                         [0..<numChannels]\<rparr>)"

text \<open>
  The capture tick \<open>scriptProcessor.onaudioprocess\<close>: the loop
  \<open>int16[i] = inputData[i] * 32768\<close>, then the blob handed to
  \<open>session.sendRealtimeInput\<close>. The blob carries the bytes of \<open>int16.buffer\<close>; their
  base64 text form (\<open>btoa\<close>, a platform function) is not modelled.
\<close>

definition capture_int16 :: "rat list \<Rightarrow> int16 list" where
  "capture_int16 inputData = map (\<lambda>x. ToInt16 (x * 32768)) inputData"

record pcmBlob =
  blob_data :: "byte list"
  mimeType :: string

definition onaudioprocess :: "rat list \<Rightarrow> pcmBlob" where
  "onaudioprocess inputData =
     \<lparr>blob_data = uint8_view (capture_int16 inputData), mimeType = ''audio/pcm;rate=16000''\<rparr>"


section \<open>Live voice session (LiveInterface component)\<close>

text \<open>
  The component's React state and refs, together with the part of the browser and of
  the remote service that the handlers act on. Objects with identity (audio contexts,
  buffer source nodes, the session handle) are numbered from an allocation counter.
  Audio-clock times are exact rationals; the rounding of double additions is not
  modelled. Each handler is one atomic step: the only \<open>await\<close> inside \<open>onmessage\<close> is on
  \<open>decodeAudioData\<close>, which waits for nothing external, so no other event is handled
  in between.
\<close>

datatype audio_call =
    Start nat rat rat  \<comment> \<open>\<open>source.start(when)\<close>: source, \<open>when\<close>, duration of its buffer\<close>
  | Stop nat           \<comment> \<open>\<open>source.stop()\<close>\<close>

record live_state =
  isActive :: bool
  isConnecting :: bool
  errorMsg :: "string option"
  needsKey :: bool
  audioContextRef :: "nat option"
  outputAudioContextRef :: "nat option"
  sessionRef :: "nat option"
  nextStartTimeRef :: rat
  sourcesRef :: "nat list"         \<comment> \<open>a JS \<open>Set\<close>: distinct members in insertion order\<close>
  next_id :: nat                   \<comment> \<open>allocation counter\<close>
  audio_calls :: "audio_call list" \<comment> \<open>calls made on source nodes, oldest first\<close>
  remote_open :: "nat list"        \<comment> \<open>remote sessions opened and not closed\<close>
  ctx_open :: "nat list"           \<comment> \<open>audio contexts created and not closed\<close>
  key_dialogs :: nat               \<comment> \<open>\<open>aistudio.openSelectKey()\<close> promises not yet resolved\<close>

definition initial_live :: live_state where
  "initial_live =
     \<lparr>isActive = False, isConnecting = False, errorMsg = None, needsKey = False,
      audioContextRef = None, outputAudioContextRef = None, sessionRef = None,
      nextStartTimeRef = 0, sourcesRef = [], next_id = 0, audio_calls = [],
      remote_open = [], ctx_open = [], key_dialogs = 0\<rparr>"

definition set_add :: "nat \<Rightarrow> nat list \<Rightarrow> nat list" where
  "set_add x xs = (if x \<in> set xs then xs else xs @ [x])"

definition set_delete :: "nat \<Rightarrow> nat list \<Rightarrow> nat list" where
  "set_delete x xs = removeAll x xs"

text \<open>
  An inbound message as \<open>onmessage\<close> reads it. \<open>audio\<close> is the outcome of
  \<open>message.serverContent?.modelTurn?.parts[0]?.inlineData?.data\<close> followed by
  \<open>decode\<close>: \<open>Absent\<close> when the chain gives undefined or the empty string;
  \<open>NoParts\<close> when \<open>modelTurn\<close> is there without a \<open>parts\<close> array, where the
  unguarded \<open>parts[0]\<close> raises \<open>TypeError\<close>; \<open>Malformed\<close> for a text that \<open>atob\<close>
  rejects; \<open>Bytes\<close> for the decoded bytes. \<open>interrupted\<close> is the truth value of
  \<open>message.serverContent?.interrupted\<close>.
\<close>

datatype inline_audio = Absent | NoParts | Malformed | Bytes "byte list"

record message =
  audio :: inline_audio
  interrupted :: bool

text \<open>
  The three statements that stop every live source, clear the set and reset the cursor;
  the source has them twice, in the interruption branch and in \<open>stopSession\<close>. A
  failing \<open>source.stop()\<close> is caught and ignored there.
\<close>

definition stop_and_clear :: "live_state \<Rightarrow> live_state" where
  "stop_and_clear s =
     s\<lparr>audio_calls := audio_calls s @ map Stop (sourcesRef s),
       sourcesRef := [],
       nextStartTimeRef := 0\<rparr>"

text \<open>
  The second statement of \<open>onmessage\<close>, the interruption branch; the handler reaches it
  unless the audio branch before it raised.
\<close>

definition interruption_branch :: "message \<Rightarrow> live_state \<Rightarrow> js_error option \<times> live_state" where
  "interruption_branch message s = (None, if interrupted message then stop_and_clear s else s)"

text \<open>
  \<open>onmessage\<close> at audio-clock reading \<open>currentTime\<close>. The result pairs the exception
  that ends the handler early, if any, with the state it leaves behind: reading the
  payload may raise, \<open>decodeAudioData\<close> may raise, and \<open>source.start\<close> raises
  \<open>RangeError\<close> on a negative time. The only \<open>try\<close> of the handler is around
  \<open>source.stop()\<close> in the interruption branch; nothing catches what the audio block
  raises.
\<close>

definition onmessage :: "rat \<Rightarrow> message \<Rightarrow> live_state \<Rightarrow> js_error option \<times> live_state" where
  "onmessage currentTime message s =
     (case audio message of
        NoParts \<Rightarrow> (Some TypeError, s)
      | Absent \<Rightarrow> interruption_branch message s
      | Malformed \<Rightarrow>
          (case outputAudioContextRef s of
             None \<Rightarrow> interruption_branch message s
           | Some ctx \<Rightarrow>
               (Some InvalidCharacterError,
                s\<lparr>nextStartTimeRef := max (nextStartTimeRef s) currentTime\<rparr>))
      | Bytes data \<Rightarrow>
          (case outputAudioContextRef s of
             None \<Rightarrow> interruption_branch message s
           | Some ctx \<Rightarrow>
               (let s1 = s\<lparr>nextStartTimeRef := max (nextStartTimeRef s) currentTime\<rparr> in
                case decodeAudioData data 24000 1 of
                  Inl e \<Rightarrow> (Some e, s1)
                | Inr audioBuffer \<Rightarrow>
                    (let source = next_id s1;
                         s2 = s1\<lparr>next_id := Suc source\<rparr>
                     in if nextStartTimeRef s2 < 0 then (Some RangeError, s2)
                        else
                          interruption_branch message
                            (s2\<lparr>audio_calls := audio_calls s2 @
                                   [Start source (nextStartTimeRef s2) (duration audioBuffer)],
                                 nextStartTimeRef := nextStartTimeRef s2 + duration audioBuffer,
                                 sourcesRef := set_add source (sourcesRef s2)\<rparr>)))))"

text \<open>The \<open>ended\<close> listener registered on each source.\<close>

definition source_ended :: "nat \<Rightarrow> live_state \<Rightarrow> live_state" where
  "source_ended source s = s\<lparr>sourcesRef := set_delete source (sourcesRef s)\<rparr>"

text \<open>
  \<open>stopSession\<close>, statement by statement: close and drop the session handle if one is
  held, clear the two flags, stop and clear the sources, close the two contexts if their
  refs are set. Closing a context that is already closed gives a rejected promise, which
  the source swallows, so closing is removal from the open contexts. The two context
  refs are not cleared.
\<close>

definition close_session :: "live_state \<Rightarrow> live_state" where
  "close_session s =
     (case sessionRef s of
        Some h \<Rightarrow> s\<lparr>remote_open := removeAll h (remote_open s), sessionRef := None\<rparr>
      | None \<Rightarrow> s)"

definition close_context :: "nat option \<Rightarrow> live_state \<Rightarrow> live_state" where
  "close_context ref s =
     (case ref of
        Some c \<Rightarrow> s\<lparr>ctx_open := removeAll c (ctx_open s)\<rparr>
      | None \<Rightarrow> s)"

definition stopSession :: "live_state \<Rightarrow> live_state" where
  "stopSession s =
     (let s1 = close_session s;
          s2 = s1\<lparr>isActive := False, isConnecting := False\<rparr>;
          s3 = stop_and_clear s2;
          s4 = close_context (audioContextRef s3) s3
      in close_context (outputAudioContextRef s4) s4)"

text \<open>
  What the environment answers to one \<open>startSession\<close>: whether \<open>window.aistudio\<close>
  exists and reports a selected key, whether \<open>process.env.API_KEY\<close> is set, the outcome
  of \<open>getUserMedia\<close> (the error's \<open>name\<close> on rejection) and of \<open>ai.live.connect\<close>
  (the error's \<open>message\<close>, empty when absent, on rejection).
\<close>

datatype mic_outcome = Granted | Rejected string
datatype connect_outcome = Opened | ConnectFailed string

record env =
  aistudio :: bool
  hasSelectedApiKey :: bool
  API_KEY :: bool
  microphone :: mic_outcome
  connection :: connect_outcome

definition onopen :: "live_state \<Rightarrow> live_state" where
  "onopen s = s\<lparr>isActive := True, isConnecting := False\<rparr>"

text \<open>
  \<open>startSession\<close>, run to completion against one environment answer. On a successful
  connect the open acknowledgement (\<open>onopen\<close>) precedes the resolution of the session
  promise, after which the handle is stored.
\<close>

definition startSession :: "env \<Rightarrow> live_state \<Rightarrow> live_state" where
  "startSession e s =
     (let s1 = s\<lparr>errorMsg := None, isConnecting := True\<rparr> in
      if aistudio e \<and> \<not> hasSelectedApiKey e \<and> \<not> API_KEY e
      then s1\<lparr>needsKey := True, isConnecting := False\<rparr>
      else
        case microphone e of
          Rejected name \<Rightarrow>
            s1\<lparr>errorMsg := Some
                  (if name = ''NotAllowedError'' \<or> name = ''PermissionDeniedError''
                   then ''Microphone access denied. Please enable permissions in your browser and reload.''
                   else ''Unable to access microphone. Please check your hardware.''),
               isConnecting := False\<rparr>
        | Granted \<Rightarrow>
            (let inputCtx = next_id s1;
                 outputCtx = Suc (next_id s1);
                 s2 = s1\<lparr>next_id := Suc (Suc (next_id s1)),
                         ctx_open := ctx_open s1 @ [inputCtx, outputCtx],
                         audioContextRef := Some inputCtx,
                         outputAudioContextRef := Some outputCtx\<rparr>
             in case connection e of
                  ConnectFailed msg \<Rightarrow>
                    s2\<lparr>errorMsg := Some (if msg = [] then ''Failed to initiate voice link.'' else msg),
                       isConnecting := False\<rparr>
                | Opened \<Rightarrow>
                    (let session = next_id s2;
                         s3 = onopen (s2\<lparr>next_id := Suc session,
                                         remote_open := remote_open s2 @ [session]\<rparr>)
                     in s3\<lparr>sessionRef := Some session\<rparr>)))"

text \<open>\<open>String.prototype.includes\<close>, and the \<open>onerror\<close> and \<open>onclose\<close> callbacks.\<close>

fun js_includes :: "string \<Rightarrow> string \<Rightarrow> bool" where
  "js_includes [] p = (p = [])"
| "js_includes (c # cs) p = (take (length p) (c # cs) = p \<or> js_includes cs p)"

definition onerror :: "string option \<Rightarrow> live_state \<Rightarrow> live_state" where
  "onerror err_message s =
     stopSession
       (case err_message of
          Some m \<Rightarrow>
            if js_includes m ''entity was not found''
            then s\<lparr>errorMsg := Some ''API Key issue. Please re-select your key.'', needsKey := True\<rparr>
            else s\<lparr>errorMsg := Some ''Connection interrupted. Please try again.''\<rparr>
        | None \<Rightarrow> s\<lparr>errorMsg := Some ''Connection interrupted. Please try again.''\<rparr>)"

definition onclose :: "live_state \<Rightarrow> live_state" where
  "onclose s = stopSession s"

text \<open>
  The control the component renders below the status line, and a click on the start
  button: nothing happens unless that button is the rendered control and is enabled.
\<close>

datatype control = SelectApiKey | StartConversation bool | Disconnect

definition main_control :: "live_state \<Rightarrow> control" where
  "main_control s =
     (if needsKey s then SelectApiKey
      else if \<not> isActive s then StartConversation (isConnecting s)
      else Disconnect)"

definition click_start :: "env \<Rightarrow> live_state \<Rightarrow> live_state" where
  "click_start e s =
     (case main_control s of
        StartConversation disabled \<Rightarrow> if disabled then s else startSession e s
      | _ \<Rightarrow> s)"

text \<open>
  \<open>handleOpenKeyDialog\<close>, the handler of the key-selection button, in its two halves:
  up to the \<open>await\<close> on \<open>aistudio.openSelectKey()\<close>, and from its resolution on
  (\<open>setNeedsKey(false); startSession()\<close>). The button is the rendered control while
  \<open>needsKey\<close> holds; it is never disabled, so it can be clicked again while an earlier
  dialog promise is pending. The second half calls \<open>startSession\<close> without looking at
  the state.
\<close>

definition handleOpenKeyDialog_call :: "env \<Rightarrow> live_state \<Rightarrow> live_state" where
  "handleOpenKeyDialog_call e s =
     (if aistudio e then s\<lparr>key_dialogs := Suc (key_dialogs s)\<rparr> else s)"

definition handleOpenKeyDialog_resume :: "env \<Rightarrow> live_state \<Rightarrow> live_state" where
  "handleOpenKeyDialog_resume e s =
     (if key_dialogs s = 0 then s
      else startSession e (s\<lparr>key_dialogs := key_dialogs s - 1, needsKey := False\<rparr>))"

definition click_select_key :: "env \<Rightarrow> live_state \<Rightarrow> live_state" where
  "click_select_key e s =
     (case main_control s of
        SelectApiKey \<Rightarrow> handleOpenKeyDialog_call e s
      | _ \<Rightarrow> s)"

text \<open>Everything that can happen to the playback scheduler, as one step function.\<close>

datatype live_event =
    Message rat message
  | SourceEnded nat
  | StopSession
  | RemoteError "string option"
  | RemoteClose
  | StartSession env

fun live_step :: "live_event \<Rightarrow> live_state \<Rightarrow> live_state" where
  "live_step (Message t m) s = snd (onmessage t m s)"
| "live_step (SourceEnded i) s = source_ended i s"
| "live_step StopSession s = stopSession s"
| "live_step (RemoteError m) s = onerror m s"
| "live_step RemoteClose s = onclose s"
| "live_step (StartSession e) s = startSession e s"

fun resets_cursor :: "live_event \<Rightarrow> bool" where
  "resets_cursor (Message t m) = interrupted m"
| "resets_cursor (SourceEnded i) = False"
| "resets_cursor StopSession = True"
| "resets_cursor (RemoteError m) = True"
| "resets_cursor RemoteClose = True"
| "resets_cursor (StartSession e) = False"

fun run_messages :: "(rat \<times> message) list \<Rightarrow> live_state \<Rightarrow> live_state" where
  "run_messages [] s = s"
| "run_messages ((t, m) # rest) s = run_messages rest (snd (onmessage t m s))"

fun scheduled_starts :: "audio_call list \<Rightarrow> rat list" where
  "scheduled_starts [] = []"
| "scheduled_starts (Start i w d # cs) = w # scheduled_starts cs"
| "scheduled_starts (Stop i # cs) = scheduled_starts cs"


definition Idle :: "live_state \<Rightarrow> bool" where
  "Idle s \<longleftrightarrow>
     sessionRef s = None \<and> \<not> isActive s \<and> \<not> isConnecting s \<and>
     sourcesRef s = [] \<and> nextStartTimeRef s = 0"



text \<open>
  Two abbreviations used to state and prove the scheduling properties: the state that the
  audio branch of \<open>onmessage\<close> leaves when the frame decodes to \<open>b\<close> and is started, and
  the inbound events that take that branch (a payload that decodes, no interruption
  flag, a clock reading that is not negative).
\<close>

definition scheduled :: "rat \<Rightarrow> AudioBuffer \<Rightarrow> live_state \<Rightarrow> live_state" where
  "scheduled t b s =
     s\<lparr>next_id := Suc (next_id s),
       audio_calls := audio_calls s @ [Start (next_id s) (max (nextStartTimeRef s) t) (duration b)],
       nextStartTimeRef := max (nextStartTimeRef s) t + duration b,
       sourcesRef := set_add (next_id s) (sourcesRef s)\<rparr>"



section \<open>Text-to-speech playback (ChatInterface component)\<close>

text \<open>
  \<open>decodeAudioData(data, ctx)\<close> of the chat component: always mono at 24 kHz.
\<close>

definition chat_decodeAudioData :: "byte list \<Rightarrow> js_error + AudioBuffer" where
  "chat_decodeAudioData data =
     (if odd (length data) then Inl RangeError
      else
        let dataInt16 = int16_view data
        in if length dataInt16 = 0 then Inl NotSupportedError
           else Inr \<lparr>buf_numberOfChannels = 1,
                     buf_length = length dataInt16,
                     buf_sampleRate = 24000,
                     buf_channelData =
                       [map (\<lambda>i. of_int (sint (dataInt16 ! i)) / 32768) [0..<length dataInt16]]\<rparr>)"

text \<open>
  The state that \<open>handleSpeak\<close> touches, and around it what the page and \<open>App\<close> do to
  the component. \<open>App\<close> renders \<open>ChatInterface\<close> without a key: a change of the current
  session, an edit or a new message changes the \<open>initialMessages\<close> prop of the same
  instance, while a switch to the live mode and back, or the deletion of the current
  chat, unmounts it and later mounts a fresh instance, whose \<open>isSpeaking\<close> is null and
  whose audio context ref is empty. The clean-up on unmount stops speech recognition only:
  requests in flight and sources that play go on, and their callbacks still belong to the
  instance that made them. So instances are numbered, \<open>mounted\<close> is the live one, and
  each request and each playing source carries the instance, text and index of the
  \<open>handleSpeak\<close> call it comes from. A state update of an unmounted instance has no
  effect.

  \<open>handleSpeak\<close> is asynchronous: the call runs up to the \<open>fetch\<close>; the rest runs when
  the reply is there; \<open>onended\<close> fires when the sound is over. The guard reads the
  \<open>isSpeaking\<close> of the latest render; React re-renders between two user events, so that
  is the current value.
\<close>

datatype role = User | Model

record chat_state =
  mounted :: nat
  isSpeaking :: "nat option"
  chat_audioContext :: bool     \<comment> \<open>\<open>audioContextRef.current\<close> of the mounted instance is set\<close>
  messages :: "(role \<times> string) list"  \<comment> \<open>role and \<open>parts[0].text\<close> of \<open>initialMessages\<close>\<close>
  tts_pending :: "(nat \<times> string \<times> nat) list"
  tts_playing :: "(nat \<times> string \<times> nat) list"

datatype tts_reply =
    Threw              \<comment> \<open>\<open>fetch\<close> or \<open>response.json()\<close> raised\<close>
  | NoAudio            \<comment> \<open>\<open>data.audio\<close> is absent or empty\<close>
  | BadAudio           \<comment> \<open>\<open>data.audio\<close> is a text that \<open>atob\<close> rejects\<close>
  | Audio "byte list"  \<comment> \<open>the bytes \<open>decodeBase64\<close> returns for \<open>data.audio\<close>\<close>

definition initial_chat :: chat_state where
  "initial_chat =
     \<lparr>mounted = 0, isSpeaking = None, chat_audioContext = False, messages = [],
      tts_pending = [], tts_playing = []\<rparr>"

definition setIsSpeaking :: "nat \<Rightarrow> nat option \<Rightarrow> chat_state \<Rightarrow> chat_state" where
  "setIsSpeaking inst v s = (if inst = mounted s then s\<lparr>isSpeaking := v\<rparr> else s)"

definition create_context :: "nat \<Rightarrow> chat_state \<Rightarrow> chat_state" where
  "create_context inst s = (if inst = mounted s then s\<lparr>chat_audioContext := True\<rparr> else s)"

definition remove_nth :: "nat \<Rightarrow> 'a list \<Rightarrow> 'a list" where
  "remove_nth k xs = take k xs @ drop (Suc k) xs"

text \<open>\<open>handleSpeak\<close> up to its first \<open>await\<close>; only the mounted instance is clickable.\<close>

definition handleSpeak :: "string \<Rightarrow> nat \<Rightarrow> chat_state \<Rightarrow> chat_state" where
  "handleSpeak text index s =
     (if isSpeaking s \<noteq> None then s
      else s\<lparr>isSpeaking := Some index, tts_pending := tts_pending s @ [(mounted s, text, index)]\<rparr>)"

text \<open>
  The speaker button of message \<open>idx\<close>: rendered for the messages of the model, it calls
  \<open>handleSpeak(msg.parts[0].text, idx)\<close>.
\<close>

definition click_speak :: "nat \<Rightarrow> chat_state \<Rightarrow> chat_state" where
  "click_speak idx s =
     (if idx < length (messages s)
      then (case messages s ! idx of
              (Model, text) \<Rightarrow> handleSpeak text idx s
            | (User, text) \<Rightarrow> s)
      else s)"

text \<open>The rest of \<open>handleSpeak\<close>, for the \<open>k\<close>-th request in flight and its reply.\<close>

definition handleSpeak_reply :: "nat \<Rightarrow> tts_reply \<Rightarrow> chat_state \<Rightarrow> chat_state" where
  "handleSpeak_reply k r s =
     (if k < length (tts_pending s)
      then
        (case tts_pending s ! k of
           (inst, text, index) \<Rightarrow>
             (let s1 = s\<lparr>tts_pending := remove_nth k (tts_pending s)\<rparr> in
              case r of
                Threw \<Rightarrow> setIsSpeaking inst None s1
              | NoAudio \<Rightarrow> s1
              | BadAudio \<Rightarrow> setIsSpeaking inst None (create_context inst s1)
              | Audio data \<Rightarrow>
                  (let s2 = create_context inst s1 in
                   case chat_decodeAudioData data of
                     Inl e \<Rightarrow> setIsSpeaking inst None s2
                   | Inr buffer \<Rightarrow> s2\<lparr>tts_playing := tts_playing s2 @ [(inst, text, index)]\<rparr>)))
      else s)"

text \<open>\<open>source.onended\<close> of the \<open>k\<close>-th playing source.\<close>

definition tts_onended :: "nat \<Rightarrow> chat_state \<Rightarrow> chat_state" where
  "tts_onended k s =
     (if k < length (tts_playing s)
      then
        (case tts_playing s ! k of
           (inst, text, index) \<Rightarrow>
             setIsSpeaking inst None (s\<lparr>tts_playing := remove_nth k (tts_playing s)\<rparr>))
      else s)"

text \<open>What \<open>App\<close> does: new props for the mounted instance, or a fresh instance.\<close>

definition set_messages :: "(role \<times> string) list \<Rightarrow> chat_state \<Rightarrow> chat_state" where
  "set_messages msgs s = s\<lparr>messages := msgs\<rparr>"

definition remount :: "(role \<times> string) list \<Rightarrow> chat_state \<Rightarrow> chat_state" where
  "remount msgs s =
     s\<lparr>mounted := Suc (mounted s), isSpeaking := None, chat_audioContext := False,
       messages := msgs\<rparr>"

datatype chat_event =
    ClickSpeak nat
  | TtsReply nat tts_reply
  | PlaybackEnded nat
  | SetMessages "(role \<times> string) list"
  | Remount "(role \<times> string) list"

fun chat_step :: "chat_event \<Rightarrow> chat_state \<Rightarrow> chat_state" where
  "chat_step (ClickSpeak idx) s = click_speak idx s"
| "chat_step (TtsReply k r) s = handleSpeak_reply k r s"
| "chat_step (PlaybackEnded k) s = tts_onended k s"
| "chat_step (SetMessages msgs) s = set_messages msgs s"
| "chat_step (Remount msgs) s = remount msgs s"

fun chat_run :: "chat_event list \<Rightarrow> chat_state \<Rightarrow> chat_state" where
  "chat_run [] s = s"
| "chat_run (e # es) s = chat_run es (chat_step e s)"

text \<open>
  The requests and sources of the mounted instance, and the invariant of its bookkeeping:
  it has at most one request or source, made for the index that \<open>isSpeaking\<close> holds, and
  no entry belongs to an instance that is yet to be mounted.
\<close>

definition own :: "chat_state \<Rightarrow> (nat \<times> string \<times> nat) list \<Rightarrow> (nat \<times> string \<times> nat) list" where
  "own s xs = filter (\<lambda>e. fst e = mounted s) xs"

definition tts_inv :: "chat_state \<Rightarrow> bool" where
  "tts_inv s \<longleftrightarrow>
     (\<forall>e \<in> set (tts_pending s) \<union> set (tts_playing s). fst e \<le> mounted s) \<and>
     length (own s (tts_pending s)) + length (own s (tts_playing s)) \<le> 1 \<and>
     (\<forall>e \<in> set (own s (tts_pending s)) \<union> set (own s (tts_playing s)).
        isSpeaking s = Some (snd (snd e)))"


section \<open>Restoring the chat sessions (App component)\<close>

text \<open>
  The initialiser of the \<open>sessions\<close> state. \<open>saved\<close> is what
  \<open>localStorage.getItem(SESSIONS_STORAGE_KEY)\<close> returned; \<open>JSON.parse\<close>, a platform
  function, is a parameter that answers \<open>None\<close> where it raises. Whatever value it
  yields is returned unchecked.
\<close>

datatype json =
    JNull | JBool bool | JNumber rat | JString string
  | JArray "json list" | JObject "(string \<times> json) list"

definition initial_sessions :: "(string \<Rightarrow> json option) \<Rightarrow> string option \<Rightarrow> json" where
  "initial_sessions JSON_parse saved =
     (case saved of
        None \<Rightarrow> JArray []
      | Some text \<Rightarrow>
          if text = [] then JArray []
          else (case JSON_parse text of Some v \<Rightarrow> v | None \<Rightarrow> JArray []))"


section \<open>Properties of the sample conversion\<close>

lemma int16_bytes_join: "word_cat (ucast (drop_bit 8 w) :: byte) (ucast w :: byte) = (w :: int16)"
  by (rule bit_word_eqI) (auto simp add: bit_simps)

lemma int16_view_uint8_view: "int16_view (uint8_view xs) = xs"
  by (induction xs) (simp_all add: uint8_view_def int16_bytes_join)

lemma length_uint8_view: "length (uint8_view xs) = 2 * length xs"
  by (induction xs) (simp_all add: uint8_view_def)

lemma js_trunc_of_int: "js_trunc (of_int k) = k"
proof -
  have "- (of_int k :: rat) = of_int (- k)" by simp
  then have "\<lfloor>- (of_int k :: rat)\<rfloor> = - k" by (metis floor_of_int)
  then show ?thesis by (simp add: js_trunc_def)
qed

lemma js_trunc_bounds:
  assumes "- 32768 \<le> x" and "x < 32768"
  shows "- 32768 \<le> js_trunc x \<and> js_trunc x < 32768"
proof (cases "x < 0")
  case True
  have "- x < of_int 32768 + 1" using assms(1) by simp
  then have up: "\<lfloor>- x\<rfloor> \<le> 32768" by (simp only: floor_le_iff)
  have "0 \<le> - x" using True by simp
  then have nn: "0 \<le> \<lfloor>- x\<rfloor>" by (simp only: zero_le_floor)
  have "js_trunc x = - \<lfloor>- x\<rfloor>" using True by (simp add: js_trunc_def)
  with up nn show ?thesis by arith
next
  case False
  then have "0 \<le> x" by simp
  then have nn: "0 \<le> \<lfloor>x\<rfloor>" by (simp only: zero_le_floor)
  have "x < of_int 32768" using assms(2) by simp
  then have up: "\<lfloor>x\<rfloor> < 32768" by (simp only: floor_less_iff)
  have "js_trunc x = \<lfloor>x\<rfloor>" using False by (simp add: js_trunc_def)
  with up nn show ?thesis by arith
qed

lemma sint_int16_of_int:
  assumes "- 32768 \<le> k" and "k < 32768"
  shows "sint (word_of_int k :: int16) = k"
  using assms by (simp add: int_word_sint)

lemma ToInt16_scaled:
  assumes "- 1 \<le> s" and "s \<le> 1"
  shows "sint (ToInt16 (s * 32768)) = (if s = 1 then - 32768 else js_trunc (s * 32768))"
proof (cases "s = 1")
  case True
  then show ?thesis by (simp add: ToInt16_def js_trunc_def)
next
  case False
  with assms have "- 32768 \<le> s * 32768" and "s * 32768 < 32768" by simp_all
  from js_trunc_bounds [OF this] False show ?thesis
    by (simp add: ToInt16_def sint_int16_of_int)
qed

lemma ToInt16_decode: "ToInt16 (of_int (sint (v :: int16)) / 32768 * 32768) = v"
proof -
  have "(of_int (sint v) :: rat) / 32768 * 32768 = of_int (sint v)" by simp
  then have "ToInt16 (of_int (sint v) / 32768 * 32768) = word_of_int (js_trunc (of_int (sint v)))"
    by (simp only: ToInt16_def)
  also have "\<dots> = word_of_int (sint v)" by (simp only: js_trunc_of_int)
  also have "\<dots> = v" by simp
  finally show ?thesis .
qed

lemma decodeAudioData_mono:
  assumes "xs \<noteq> []"
  shows "decodeAudioData (uint8_view xs) 24000 1 =
           Inr \<lparr>buf_numberOfChannels = 1, buf_length = length xs, buf_sampleRate = 24000,
                buf_channelData = [map (\<lambda>v. of_int (sint v) / 32768) xs]\<rparr>"
proof -
  have "map (\<lambda>i. (of_int (sint (xs ! i)) :: rat) / 32768) [0..<length xs]
          = map (\<lambda>v. of_int (sint v) / 32768) xs"
    by (rule nth_equalityI) simp_all
  with assms show ?thesis
    by (simp add: decodeAudioData_def int16_view_uint8_view length_uint8_view)
qed

lemma capture_decode_exact:
  "capture_int16 (map (\<lambda>v. of_int (sint v) / 32768) xs) = xs"
  by (simp only: capture_int16_def map_map o_def ToInt16_decode list.map_ident)


text \<open>
  C4 (as amended). Each sample \<open>s\<close> of the chunk with \<open>-1 \<le> s \<le> 1\<close> reaches the
  dispatched blob as the 16-bit value of \<open>s * 32768\<close> with its fraction discarded
  (truncation toward zero, no rounding to nearest); the one product outside the
  16-bit range, \<open>s = 1\<close>, wraps to \<open>-32768\<close>.
\<close>

theorem capture_sample_truncated:
  assumes "i < length inputData" and "- 1 \<le> inputData ! i" and "inputData ! i \<le> 1"
  shows "length (int16_view (blob_data (onaudioprocess inputData))) = length inputData \<and>
         sint (int16_view (blob_data (onaudioprocess inputData)) ! i) =
           (if inputData ! i = 1 then - 32768 else js_trunc (inputData ! i * 32768))"
  using assms
  by (simp add: onaudioprocess_def int16_view_uint8_view capture_int16_def ToInt16_scaled)

theorem capture_sample_truncated_witness:
  "(1::nat) < length [1, - 3 / 4 :: rat] \<and>
   sint (int16_view (blob_data (onaudioprocess [1, - 3 / 4])) ! 1) = - 24576 \<and>
   sint (int16_view (blob_data (onaudioprocess [1, - 3 / 4])) ! 0) = - 32768"
proof -
  have a: "sint (int16_view (blob_data (onaudioprocess [1, - 3 / 4])) ! 1) =
             js_trunc (- 3 / 4 * 32768)"
    using capture_sample_truncated [of 1 "[1, - 3 / 4]"] by simp
  have b: "sint (int16_view (blob_data (onaudioprocess [1, - 3 / 4])) ! 0) = - 32768"
    using capture_sample_truncated [of 0 "[1, - 3 / 4]"] by simp
  have c: "js_trunc (- 3 / 4 * 32768) = - 24576" by (simp add: js_trunc_def)
  from a b c show ?thesis by simp
qed

text \<open>
  C4 as stated fails: the float32 value \<open>3 * 2^-17\<close> scales to \<open>0.75\<close>, which rounds
  to 1 but is stored as 0.
\<close>

theorem capture_not_rounded_counterexample:
  "sint (int16_view (blob_data (onaudioprocess [3 / 131072])) ! 0)
     \<noteq> round ((3 / 131072 :: rat) * 32768)"
proof -
  have "sint (ToInt16 (3 / 131072 * 32768)) = 0"
    by code_simp
  moreover have "round ((3 / 131072 :: rat) * 32768) = 1"
    by code_simp
  ultimately show ?thesis
    by (simp add: onaudioprocess_def int16_view_uint8_view capture_int16_def)
qed

text \<open>
  C8. A frame of int16 samples, laid out as bytes, decoded by \<open>decodeAudioData\<close> (mono,
  24 kHz) and passed through the capture conversion comes back with every sample within
  one quantisation step of the original (in fact unchanged).
\<close>

theorem pcm_round_trip:
  assumes "xs \<noteq> []"
  shows "\<exists>buf floats. decodeAudioData (uint8_view xs) 24000 1 = Inr buf \<and>
           getChannelData buf 0 = Inr floats \<and>
           length (capture_int16 floats) = length xs \<and>
           (\<forall>i < length xs. \<bar>sint (capture_int16 floats ! i) - sint (xs ! i)\<bar> \<le> 1)"
proof (intro exI conjI)
  show "decodeAudioData (uint8_view xs) 24000 1 =
          Inr \<lparr>buf_numberOfChannels = 1, buf_length = length xs, buf_sampleRate = 24000,
               buf_channelData = [map (\<lambda>v. of_int (sint v) / 32768) xs]\<rparr>"
    using assms by (rule decodeAudioData_mono)
  show "getChannelData
          \<lparr>buf_numberOfChannels = 1, buf_length = length xs, buf_sampleRate = 24000,
           buf_channelData = [map (\<lambda>v. of_int (sint v) / 32768) xs]\<rparr> 0 =
        Inr (map (\<lambda>v. of_int (sint v) / 32768) xs)"
    by (simp add: getChannelData_def)
  show "length (capture_int16 (map (\<lambda>v. of_int (sint v) / 32768) xs)) = length xs"
    by (simp only: capture_decode_exact)
  show "\<forall>i < length xs.
          \<bar>sint (capture_int16 (map (\<lambda>v. of_int (sint v) / 32768) xs) ! i) - sint (xs ! i)\<bar> \<le> 1"
    by (simp only: capture_decode_exact) simp
qed

theorem pcm_round_trip_witness:
  "[- 32768, 1, 32767 :: int16] \<noteq> [] \<and>
   (\<exists>buf floats. decodeAudioData (uint8_view [- 32768, 1, 32767]) 24000 1 = Inr buf \<and>
      getChannelData buf 0 = Inr floats \<and>
      length (capture_int16 floats) = length [- 32768, 1, 32767 :: int16] \<and>
      (\<forall>i < length [- 32768, 1, 32767 :: int16].
         \<bar>sint (capture_int16 floats ! i) - sint ([- 32768, 1, 32767 :: int16] ! i)\<bar> \<le> 1))"
proof (rule conjI)
  show ne: "[- 32768, 1, 32767 :: int16] \<noteq> []" by simp
  show "\<exists>buf floats. decodeAudioData (uint8_view [- 32768, 1, 32767]) 24000 1 = Inr buf \<and>
      getChannelData buf 0 = Inr floats \<and>
      length (capture_int16 floats) = length [- 32768, 1, 32767 :: int16] \<and>
      (\<forall>i < length [- 32768, 1, 32767 :: int16].
         \<bar>sint (capture_int16 floats ! i) - sint ([- 32768, 1, 32767 :: int16] ! i)\<bar> \<le> 1)"
    using ne by (rule pcm_round_trip)
qed


section \<open>Properties of the session life cycle\<close>

lemma duration_nonneg: "0 \<le> duration b"
  by (simp add: duration_def)

lemma close_session_sel [simp]:
  "sessionRef (close_session s) = None"
  "isActive (close_session s) = isActive s"
  "isConnecting (close_session s) = isConnecting s"
  "sourcesRef (close_session s) = sourcesRef s"
  "nextStartTimeRef (close_session s) = nextStartTimeRef s"
  "audio_calls (close_session s) = audio_calls s"
  "audioContextRef (close_session s) = audioContextRef s"
  "outputAudioContextRef (close_session s) = outputAudioContextRef s"
  by (cases "sessionRef s"; simp add: close_session_def)+

lemma close_context_sel [simp]:
  "sessionRef (close_context r s) = sessionRef s"
  "isActive (close_context r s) = isActive s"
  "isConnecting (close_context r s) = isConnecting s"
  "sourcesRef (close_context r s) = sourcesRef s"
  "nextStartTimeRef (close_context r s) = nextStartTimeRef s"
  "audio_calls (close_context r s) = audio_calls s"
  "audioContextRef (close_context r s) = audioContextRef s"
  "outputAudioContextRef (close_context r s) = outputAudioContextRef s"
  by (cases r; simp add: close_context_def)+

lemma stopSession_sel:
  "sessionRef (stopSession s) = None"
  "isActive (stopSession s) = False"
  "isConnecting (stopSession s) = False"
  "sourcesRef (stopSession s) = []"
  "nextStartTimeRef (stopSession s) = 0"
  by (simp_all add: stopSession_def stop_and_clear_def Let_def)

lemma close_session_idem: "sessionRef s = None \<Longrightarrow> close_session s = s"
  by (simp add: close_session_def)

lemma close_context_twice: "close_context r (close_context r s) = close_context r s"
  by (cases r) (simp_all add: close_context_def)

lemma close_context_commute:
  "close_context r (close_context q s) = close_context q (close_context r s)"
  by (cases r; cases q) (simp_all add: close_context_def removeAll_commute)

lemma stop_and_clear_idle:
  "sourcesRef s = [] \<Longrightarrow> nextStartTimeRef s = 0 \<Longrightarrow> stop_and_clear s = s"
  by (simp add: stop_and_clear_def)

lemma flags_idle: "\<not> isActive s \<Longrightarrow> \<not> isConnecting s \<Longrightarrow> s\<lparr>isActive := False, isConnecting := False\<rparr> = s"
  by simp

lemma stopSession_idem: "stopSession (stopSession s) = stopSession s"
proof -
  define t where "t = stopSession s"
  have refs: "audioContextRef t = audioContextRef s" "outputAudioContextRef t = outputAudioContextRef s"
    by (simp_all add: t_def stopSession_def stop_and_clear_def Let_def)
  have idle: "sessionRef t = None" "\<not> isActive t" "\<not> isConnecting t" "sourcesRef t = []"
    "nextStartTimeRef t = 0"
    by (simp_all add: t_def stopSession_sel)
  have t_eq: "t = close_context (outputAudioContextRef s) (close_context (audioContextRef s)
                 (stop_and_clear ((close_session s)\<lparr>isActive := False, isConnecting := False\<rparr>)))"
    by (simp add: t_def stopSession_def stop_and_clear_def Let_def)
  have "stopSession t = close_context (outputAudioContextRef s) (close_context (audioContextRef s) t)"
    using idle refs
    by (simp add: stopSession_def Let_def close_session_idem stop_and_clear_idle flags_idle)
  also have "\<dots> = t"
  proof -
    define u where "u = stop_and_clear ((close_session s)\<lparr>isActive := False, isConnecting := False\<rparr>)"
    define a where "a = audioContextRef s"
    define b where "b = outputAudioContextRef s"
    have t_u: "t = close_context b (close_context a u)"
      using t_eq by (simp only: u_def a_def b_def)
    have "close_context b (close_context a (close_context b (close_context a u)))
            = close_context b (close_context b (close_context a (close_context a u)))"
      by (simp only: close_context_commute [of a b])
    also have "\<dots> = close_context b (close_context a u)"
      by (simp only: close_context_twice)
    finally show ?thesis
      by (simp only: t_u a_def [symmetric] b_def [symmetric])
  qed
  finally show ?thesis by (simp only: t_def)
qed

text \<open>
  C6. \<open>stopSession\<close> is a total function of the state: every call inside it that may
  fail is guarded, so it raises nothing. From any state whatever it leaves the component
  idle (no session handle, both flags off, no live source, cursor 0), and so does a
  second call, which changes nothing further.
\<close>

theorem stop_idempotent:
  "Idle (stopSession s) \<and> Idle (stopSession (stopSession s)) \<and>
   stopSession (stopSession s) = stopSession s"
  by (simp add: Idle_def stopSession_sel stopSession_idem)



section \<open>Properties of the playback scheduler\<close>

lemma startSession_cursor: "nextStartTimeRef (startSession e s) = nextStartTimeRef s"
  by (simp add: startSession_def onopen_def Let_def split: mic_outcome.splits connect_outcome.splits)

lemma onerror_cursor: "nextStartTimeRef (onerror m s) = 0"
  by (simp add: onerror_def stopSession_sel)

lemma scheduled_starts_append:
  "scheduled_starts (xs @ ys) = scheduled_starts xs @ scheduled_starts ys"
  by (induction xs rule: scheduled_starts.induct) simp_all

lemma scheduled_starts_Stop: "scheduled_starts (map Stop xs) = []"
  by (induction xs) simp_all

lemma length_int16_view: "length (int16_view xs) = length xs div 2"
  by (induction xs rule: int16_view.induct) simp_all

lemma decodeAudioData_ok:
  assumes "even (length data)" and "2 \<le> length data"
  shows "\<exists>b. decodeAudioData data 24000 1 = Inr b \<and> duration b = of_nat (length data div 2) / 24000"
proof -
  have "0 < length data div 2" using assms by presburger
  then have "0 < length (int16_view data)" by (simp only: length_int16_view)
  then have "int16_view data \<noteq> []" by simp
  with assms(1) show ?thesis
    by (simp add: decodeAudioData_def Let_def length_int16_view duration_def)
qed


lemma scheduled_sel:
  "outputAudioContextRef (scheduled t b s) = outputAudioContextRef s"
  "nextStartTimeRef (scheduled t b s) = max (nextStartTimeRef s) t + duration b"
  "audio_calls (scheduled t b s) = audio_calls s @ [Start (next_id s) (max (nextStartTimeRef s) t) (duration b)]"
  "sourcesRef (scheduled t b s) = set_add (next_id s) (sourcesRef s)"
  by (simp_all add: scheduled_def)

text \<open>The ways a run of the handler can go, one lemma each.\<close>

lemma onmessage_quiet:
  assumes "audio m = Absent \<or> (audio m \<noteq> NoParts \<and> outputAudioContextRef s = None)"
  shows "onmessage t m s = interruption_branch m s"
  using assms by (cases "audio m") (auto simp add: onmessage_def)

lemma onmessage_no_parts:
  assumes "audio m = NoParts"
  shows "onmessage t m s = (Some TypeError, s)"
  using assms by (simp add: onmessage_def)

lemma onmessage_malformed:
  assumes "audio m = Malformed" and "outputAudioContextRef s = Some c"
  shows "onmessage t m s =
           (Some InvalidCharacterError, s\<lparr>nextStartTimeRef := max (nextStartTimeRef s) t\<rparr>)"
  using assms by (simp add: onmessage_def)

lemma onmessage_decode_error:
  assumes "audio m = Bytes data" and "outputAudioContextRef s = Some c"
      and "decodeAudioData data 24000 1 = Inl e"
  shows "onmessage t m s = (Some e, s\<lparr>nextStartTimeRef := max (nextStartTimeRef s) t\<rparr>)"
  using assms by (simp add: onmessage_def)

lemma onmessage_start_error:
  assumes "audio m = Bytes data" and "outputAudioContextRef s = Some c"
      and "decodeAudioData data 24000 1 = Inr b" and "max (nextStartTimeRef s) t < 0"
  shows "onmessage t m s =
           (Some RangeError, s\<lparr>nextStartTimeRef := max (nextStartTimeRef s) t, next_id := Suc (next_id s)\<rparr>)"
  using assms by (simp add: onmessage_def Let_def)

lemma onmessage_scheduled:
  assumes "audio m = Bytes data" and "outputAudioContextRef s = Some c"
      and "decodeAudioData data 24000 1 = Inr b" and "0 \<le> max (nextStartTimeRef s) t"
  shows "onmessage t m s = interruption_branch m (scheduled t b s)"
proof -
  have "\<not> max (nextStartTimeRef s) t < 0" using assms(4) by (simp only: not_less)
  with assms(1-3) show ?thesis
    by (auto simp add: onmessage_def Let_def scheduled_def)
qed

lemma onmessage_cases:
  obtains (quiet) "audio m = Absent \<or> (audio m \<noteq> NoParts \<and> outputAudioContextRef s = None)"
  | (no_parts) "audio m = NoParts"
  | (malformed) c where "audio m = Malformed" "outputAudioContextRef s = Some c"
  | (decode_error) data c e where "audio m = Bytes data" "outputAudioContextRef s = Some c"
      "decodeAudioData data 24000 1 = Inl e"
  | (start_error) data c b where "audio m = Bytes data" "outputAudioContextRef s = Some c"
      "decodeAudioData data 24000 1 = Inr b" "max (nextStartTimeRef s) t < 0"
  | (scheduled) data c b where "audio m = Bytes data" "outputAudioContextRef s = Some c"
      "decodeAudioData data 24000 1 = Inr b" "0 \<le> max (nextStartTimeRef s) t"
proof (cases "outputAudioContextRef s")
  case None
  then show ?thesis using quiet no_parts by (cases "audio m = NoParts") auto
next
  case (Some c)
  show ?thesis
  proof (cases "audio m")
    case Absent
    then show ?thesis using quiet by simp
  next
    case NoParts
    then show ?thesis using no_parts by simp
  next
    case Malformed
    with Some show ?thesis using malformed by simp
  next
    case (Bytes data)
    show ?thesis
    proof (cases "decodeAudioData data 24000 1")
      case (Inl e)
      with Bytes Some show ?thesis using decode_error by blast
    next
      case (Inr b)
      with Bytes Some show ?thesis
        using start_error [of data c b] scheduled [of data c b]
        by (cases "max (nextStartTimeRef s) t < 0") auto
    qed
  qed
qed

lemma onmessage_cursor:
  "nextStartTimeRef s \<le> nextStartTimeRef (snd (onmessage t m s)) \<or>
   (interrupted m \<and> nextStartTimeRef (snd (onmessage t m s)) = 0)"
proof (cases rule: onmessage_cases [where m = m and s = s and t = t])
  case quiet
  then show ?thesis by (simp add: onmessage_quiet interruption_branch_def stop_and_clear_def)
next
  case no_parts
  then show ?thesis by (simp add: onmessage_no_parts)
next
  case (malformed c)
  then show ?thesis by (simp add: onmessage_malformed)
next
  case (decode_error data c e)
  then show ?thesis by (simp add: onmessage_decode_error)
next
  case (start_error data c b)
  then show ?thesis by (simp add: onmessage_start_error)
next
  case (scheduled data c b)
  have "nextStartTimeRef s \<le> max (nextStartTimeRef s) t + duration b"
    using duration_nonneg [of b] by (simp add: add_increasing2)
  with scheduled show ?thesis
    by (simp add: onmessage_scheduled interruption_branch_def stop_and_clear_def scheduled_sel)
qed

text \<open>A freshly started session, used in the examples below.\<close>

lemma started:
  "outputAudioContextRef (startSession \<lparr>aistudio = False, hasSelectedApiKey = False, API_KEY = True,
       microphone = Granted, connection = Opened\<rparr> initial_live) = Some 1"
  "nextStartTimeRef (startSession \<lparr>aistudio = False, hasSelectedApiKey = False, API_KEY = True,
       microphone = Granted, connection = Opened\<rparr> initial_live) = 0"
  "audio_calls (startSession \<lparr>aistudio = False, hasSelectedApiKey = False, API_KEY = True,
       microphone = Granted, connection = Opened\<rparr> initial_live) = []"
  "isActive (startSession \<lparr>aistudio = False, hasSelectedApiKey = False, API_KEY = True,
       microphone = Granted, connection = Opened\<rparr> initial_live)"
  by (simp_all add: startSession_def onopen_def initial_live_def Let_def)





subsection \<open>Monotone cursor\<close>

text \<open>
  C7. Whatever happens to the component, the scheduling cursor does not decrease, except
  that an interruption message, a stop, or a remote error or close (which stop) may set
  it to 0.
\<close>

theorem cursor_monotone:
  "nextStartTimeRef s \<le> nextStartTimeRef (live_step e s) \<or>
   (resets_cursor e \<and> nextStartTimeRef (live_step e s) = 0)"
proof (cases e)
  case (Message t m)
  then show ?thesis using onmessage_cursor [of s t m] by simp
next
  case (SourceEnded i)
  then show ?thesis by (simp add: source_ended_def)
next
  case StopSession
  then show ?thesis by (simp add: stopSession_sel)
next
  case (RemoteError m)
  then show ?thesis by (simp add: onerror_cursor)
next
  case RemoteClose
  then show ?thesis by (simp add: onclose_def stopSession_sel)
next
  case (StartSession env)
  then show ?thesis by (simp add: startSession_cursor)
qed


subsection \<open>Interruption\<close>

text \<open>
  A handler run that reaches the interruption branch with the flag set stops every source
  that was live, leaves the set empty and the cursor at 0, however many sources were
  live. It reaches the branch for every message whose payload is absent or decodes.
\<close>

lemma interruption_flushes:
  assumes "interrupted m" and "fst (onmessage t m s) = None"
  shows "sourcesRef (snd (onmessage t m s)) = [] \<and>
         nextStartTimeRef (snd (onmessage t m s)) = 0 \<and>
         (\<forall>src \<in> set (sourcesRef s).
            Stop src \<in> set (drop (length (audio_calls s)) (audio_calls (snd (onmessage t m s)))))"
proof (cases rule: onmessage_cases [where m = m and s = s and t = t])
  case quiet
  with assms(1) show ?thesis
    by (simp add: onmessage_quiet interruption_branch_def stop_and_clear_def)
next
  case no_parts
  with assms(2) show ?thesis by (simp add: onmessage_no_parts)
next
  case (malformed c)
  with assms(2) show ?thesis by (simp add: onmessage_malformed)
next
  case (decode_error data c e)
  with assms(2) show ?thesis by (simp add: onmessage_decode_error)
next
  case (start_error data c b)
  with assms(2) show ?thesis by (simp add: onmessage_start_error)
next
  case (scheduled data c b)
  with assms(1) show ?thesis
    by (auto simp add: onmessage_scheduled interruption_branch_def stop_and_clear_def
          scheduled_sel set_add_def)
qed

text \<open>
  Two sources are live after two one-sample frames; an interruption message whose own
  payload decodes empties the set.
\<close>

lemma interruption_flushes_example:
  "interrupted \<lparr>audio = Bytes [0, 0], interrupted = True\<rparr> \<and>
   sourcesRef (snd (onmessage 0 \<lparr>audio = Bytes [0, 0], interrupted = True\<rparr>
      (run_messages
         [(0, \<lparr>audio = Bytes [0, 0], interrupted = False\<rparr>),
          (0, \<lparr>audio = Bytes [0, 0], interrupted = False\<rparr>)]
         (startSession \<lparr>aistudio = False, hasSelectedApiKey = False, API_KEY = True,
            microphone = Granted, connection = Opened\<rparr> initial_live)))) = []"
proof -
  let ?m = "\<lparr>audio = Bytes [0, 0], interrupted = True\<rparr>"
  let ?s = "run_messages
         [(0, \<lparr>audio = Bytes [0, 0], interrupted = False\<rparr>),
          (0, \<lparr>audio = Bytes [0, 0], interrupted = False\<rparr>)]
         (startSession \<lparr>aistudio = False, hasSelectedApiKey = False, API_KEY = True,
            microphone = Granted, connection = Opened\<rparr> initial_live)"
  have a: "interrupted ?m" by simp
  have b: "fst (onmessage 0 ?m ?s) = None"
    by (simp add: startSession_def onopen_def initial_live_def Let_def onmessage_def
        interruption_branch_def decodeAudioData_def set_add_def)
  from interruption_flushes [OF a b] show ?thesis by simp
qed

lemma interruption_flushes_decodable:
  assumes "interrupted m"
      and "audio m = Absent \<or>
           (\<exists>data b. audio m = Bytes data \<and> decodeAudioData data 24000 1 = Inr b \<and> 0 \<le> t)"
  shows "fst (onmessage t m s) = None \<and>
         sourcesRef (snd (onmessage t m s)) = [] \<and>
         nextStartTimeRef (snd (onmessage t m s)) = 0"
proof (cases "audio m = Absent \<or> outputAudioContextRef s = None")
  case True
  with assms have "audio m = Absent \<or> (audio m \<noteq> NoParts \<and> outputAudioContextRef s = None)"
    by auto
  with assms(1) show ?thesis
    by (simp add: onmessage_quiet interruption_branch_def stop_and_clear_def)
next
  case False
  with assms(2) obtain data b c where d: "audio m = Bytes data"
    "decodeAudioData data 24000 1 = Inr b" "0 \<le> t" "outputAudioContextRef s = Some c"
    by auto
  from d(3) have "0 \<le> max (nextStartTimeRef s) t" by (simp add: le_max_iff_disj)
  from onmessage_scheduled [OF d(1) d(4) d(2) this] assms(1) show ?thesis
    by (simp add: interruption_branch_def stop_and_clear_def)
qed

text \<open>
  C2. The claim fails on the code at a message that carries the interruption flag together
  with an audio payload that does not decode. With two sources live, a one-byte payload
  makes \<open>decodeAudioData\<close> raise \<open>RangeError\<close> in the audio block, the handler ends
  there, and the interruption branch below it is never run: both sources stay in the set
  and no \<open>stop()\<close> is issued.
\<close>

theorem interruption_lost_on_undecodable_audio:
  "interrupted \<lparr>audio = Bytes [0], interrupted = True\<rparr> \<and>
   onmessage 0 \<lparr>audio = Bytes [0], interrupted = True\<rparr>
      (run_messages
         [(0, \<lparr>audio = Bytes [0, 0], interrupted = False\<rparr>),
          (0, \<lparr>audio = Bytes [0, 0], interrupted = False\<rparr>)]
         (startSession \<lparr>aistudio = False, hasSelectedApiKey = False, API_KEY = True,
            microphone = Granted, connection = Opened\<rparr> initial_live))
   = (Some RangeError,
      run_messages
         [(0, \<lparr>audio = Bytes [0, 0], interrupted = False\<rparr>),
          (0, \<lparr>audio = Bytes [0, 0], interrupted = False\<rparr>)]
         (startSession \<lparr>aistudio = False, hasSelectedApiKey = False, API_KEY = True,
            microphone = Granted, connection = Opened\<rparr> initial_live)) \<and>
   sourcesRef (run_messages
         [(0, \<lparr>audio = Bytes [0, 0], interrupted = False\<rparr>),
          (0, \<lparr>audio = Bytes [0, 0], interrupted = False\<rparr>)]
         (startSession \<lparr>aistudio = False, hasSelectedApiKey = False, API_KEY = True,
            microphone = Granted, connection = Opened\<rparr> initial_live)) = [3, 4]"
  by (simp add: startSession_def onopen_def initial_live_def Let_def onmessage_def
        interruption_branch_def decodeAudioData_def set_add_def duration_def)


subsection \<open>Scheduling after a gap\<close>

text \<open>
  C3. When a frame that decodes is handled at a clock reading past the cursor, the handler
  issues exactly one \<open>start\<close> call, and its time is the clock reading.
\<close>

theorem gap_schedules_now:
  assumes "outputAudioContextRef s = Some ctx" and "audio m = Bytes data"
      and "decodeAudioData data 24000 1 = Inr buf"
      and "nextStartTimeRef s < t" and "0 \<le> t"
  shows "fst (onmessage t m s) = None \<and>
         scheduled_starts (drop (length (audio_calls s)) (audio_calls (snd (onmessage t m s)))) = [t]"
proof -
  have m: "max (nextStartTimeRef s) t = t" using assms(4) by (simp add: max_def)
  then have "0 \<le> max (nextStartTimeRef s) t" using assms(5) by simp
  from onmessage_scheduled [OF assms(2) assms(1) assms(3) this] m show ?thesis
    by (simp add: interruption_branch_def stop_and_clear_def scheduled_sel
          scheduled_starts_append scheduled_starts_Stop)
qed

text \<open>
  A frame handled at clock reading 5 by a freshly started session, whose cursor is still
  0, is started at 5.
\<close>

theorem gap_schedules_now_witness:
  "nextStartTimeRef (startSession \<lparr>aistudio = False, hasSelectedApiKey = False, API_KEY = True,
         microphone = Granted, connection = Opened\<rparr> initial_live) < 5 \<and>
   scheduled_starts (audio_calls (snd (onmessage 5 \<lparr>audio = Bytes [0, 0], interrupted = False\<rparr>
      (startSession \<lparr>aistudio = False, hasSelectedApiKey = False, API_KEY = True,
         microphone = Granted, connection = Opened\<rparr> initial_live)))) = [5]"
proof -
  let ?s = "startSession \<lparr>aistudio = False, hasSelectedApiKey = False, API_KEY = True,
         microphone = Granted, connection = Opened\<rparr> initial_live"
  let ?m = "\<lparr>audio = Bytes [0, 0], interrupted = False\<rparr>"
  obtain b where b: "decodeAudioData [0, 0] 24000 1 = Inr b"
    using decodeAudioData_ok [of "[0, 0]"] by auto
  have c: "outputAudioContextRef ?s = Some 1" by (simp add: started)
  have m: "audio ?m = Bytes [0, 0]" by simp
  have lt: "nextStartTimeRef ?s < 5" by (simp add: started)
  from gap_schedules_now [OF c m b lt] lt show ?thesis by (simp add: started)
qed


subsection \<open>Back-to-back frames\<close>





subsection \<open>Starting twice\<close>

text \<open>
  The start button carries the guard: it is rendered only while the session is not
  active and no key selection is pending, and it is disabled while connecting, so a click
  on it while the session is connecting or active changes nothing.
\<close>

lemma start_button_guard:
  assumes "isActive s \<or> isConnecting s"
  shows "click_start e s = s"
  using assms by (auto simp add: click_start_def main_control_def)

text \<open>
  \<open>startSession\<close> itself never reads \<open>isActive\<close>, \<open>isConnecting\<close> or \<open>sessionRef\<close>:
  called on the active state that a first call produced, it opens a second remote session
  and a second pair of contexts, and reports no error.
\<close>

lemma startSession_unguarded:
  "isActive (startSession \<lparr>aistudio = False, hasSelectedApiKey = False, API_KEY = True,
      microphone = Granted, connection = Opened\<rparr> initial_live) \<and>
   remote_open (startSession \<lparr>aistudio = False, hasSelectedApiKey = False, API_KEY = True,
      microphone = Granted, connection = Opened\<rparr> initial_live) = [2] \<and>
   remote_open (startSession \<lparr>aistudio = False, hasSelectedApiKey = False, API_KEY = True,
      microphone = Granted, connection = Opened\<rparr>
     (startSession \<lparr>aistudio = False, hasSelectedApiKey = False, API_KEY = True,
        microphone = Granted, connection = Opened\<rparr> initial_live)) = [2, 5] \<and>
   ctx_open (startSession \<lparr>aistudio = False, hasSelectedApiKey = False, API_KEY = True,
      microphone = Granted, connection = Opened\<rparr>
     (startSession \<lparr>aistudio = False, hasSelectedApiKey = False, API_KEY = True,
        microphone = Granted, connection = Opened\<rparr> initial_live)) = [0, 1, 3, 4] \<and>
   errorMsg (startSession \<lparr>aistudio = False, hasSelectedApiKey = False, API_KEY = True,
      microphone = Granted, connection = Opened\<rparr>
     (startSession \<lparr>aistudio = False, hasSelectedApiKey = False, API_KEY = True,
        microphone = Granted, connection = Opened\<rparr> initial_live)) = None"
  by (simp add: startSession_def onopen_def initial_live_def Let_def)

text \<open>
  C5. The claim fails on the code along the one path that calls \<open>startSession\<close> without
  the start button's guard. A first start without a selected key sets \<open>needsKey\<close>; the
  key-selection button is then clicked twice before the dialog promise resolves; both
  promises resolve with a key selected. The first resumption starts a session, which is
  active; the second calls \<open>startSession\<close> on that active state and opens a second remote
  session and a second pair of audio contexts, with no error reported. The first handle
  is overwritten in \<open>sessionRef\<close>, so a later stop closes only the second session.
\<close>

theorem second_session_through_key_dialog:
  "main_control (startSession \<lparr>aistudio = True, hasSelectedApiKey = False, API_KEY = False,
      microphone = Granted, connection = Opened\<rparr> initial_live) = SelectApiKey \<and>
   isActive (handleOpenKeyDialog_resume \<lparr>aistudio = True, hasSelectedApiKey = True, API_KEY = False,
      microphone = Granted, connection = Opened\<rparr>
     (click_select_key \<lparr>aistudio = True, hasSelectedApiKey = True, API_KEY = False,
        microphone = Granted, connection = Opened\<rparr>
       (click_select_key \<lparr>aistudio = True, hasSelectedApiKey = True, API_KEY = False,
          microphone = Granted, connection = Opened\<rparr>
         (startSession \<lparr>aistudio = True, hasSelectedApiKey = False, API_KEY = False,
            microphone = Granted, connection = Opened\<rparr> initial_live)))) \<and>
   remote_open (handleOpenKeyDialog_resume \<lparr>aistudio = True, hasSelectedApiKey = True, API_KEY = False,
      microphone = Granted, connection = Opened\<rparr>
     (click_select_key \<lparr>aistudio = True, hasSelectedApiKey = True, API_KEY = False,
        microphone = Granted, connection = Opened\<rparr>
       (click_select_key \<lparr>aistudio = True, hasSelectedApiKey = True, API_KEY = False,
          microphone = Granted, connection = Opened\<rparr>
         (startSession \<lparr>aistudio = True, hasSelectedApiKey = False, API_KEY = False,
            microphone = Granted, connection = Opened\<rparr> initial_live)))) = [2] \<and>
   remote_open (handleOpenKeyDialog_resume \<lparr>aistudio = True, hasSelectedApiKey = True, API_KEY = False,
      microphone = Granted, connection = Opened\<rparr>
    (handleOpenKeyDialog_resume \<lparr>aistudio = True, hasSelectedApiKey = True, API_KEY = False,
      microphone = Granted, connection = Opened\<rparr>
     (click_select_key \<lparr>aistudio = True, hasSelectedApiKey = True, API_KEY = False,
        microphone = Granted, connection = Opened\<rparr>
       (click_select_key \<lparr>aistudio = True, hasSelectedApiKey = True, API_KEY = False,
          microphone = Granted, connection = Opened\<rparr>
         (startSession \<lparr>aistudio = True, hasSelectedApiKey = False, API_KEY = False,
            microphone = Granted, connection = Opened\<rparr> initial_live))))) = [2, 5] \<and>
   ctx_open (handleOpenKeyDialog_resume \<lparr>aistudio = True, hasSelectedApiKey = True, API_KEY = False,
      microphone = Granted, connection = Opened\<rparr>
    (handleOpenKeyDialog_resume \<lparr>aistudio = True, hasSelectedApiKey = True, API_KEY = False,
      microphone = Granted, connection = Opened\<rparr>
     (click_select_key \<lparr>aistudio = True, hasSelectedApiKey = True, API_KEY = False,
        microphone = Granted, connection = Opened\<rparr>
       (click_select_key \<lparr>aistudio = True, hasSelectedApiKey = True, API_KEY = False,
          microphone = Granted, connection = Opened\<rparr>
         (startSession \<lparr>aistudio = True, hasSelectedApiKey = False, API_KEY = False,
            microphone = Granted, connection = Opened\<rparr> initial_live))))) = [0, 1, 3, 4] \<and>
   errorMsg (handleOpenKeyDialog_resume \<lparr>aistudio = True, hasSelectedApiKey = True, API_KEY = False,
      microphone = Granted, connection = Opened\<rparr>
    (handleOpenKeyDialog_resume \<lparr>aistudio = True, hasSelectedApiKey = True, API_KEY = False,
      microphone = Granted, connection = Opened\<rparr>
     (click_select_key \<lparr>aistudio = True, hasSelectedApiKey = True, API_KEY = False,
        microphone = Granted, connection = Opened\<rparr>
       (click_select_key \<lparr>aistudio = True, hasSelectedApiKey = True, API_KEY = False,
          microphone = Granted, connection = Opened\<rparr>
         (startSession \<lparr>aistudio = True, hasSelectedApiKey = False, API_KEY = False,
            microphone = Granted, connection = Opened\<rparr> initial_live))))) = None"
  by (simp add: startSession_def onopen_def initial_live_def Let_def main_control_def
        click_select_key_def handleOpenKeyDialog_call_def handleOpenKeyDialog_resume_def)


section \<open>Properties of text-to-speech playback\<close>

lemma filter_split_nth:
  assumes "k < length xs"
  shows "filter P xs =
           filter P (take k xs) @ (if P (xs ! k) then [xs ! k] else []) @ filter P (drop (Suc k) xs)"
proof -
  have "xs = take k xs @ xs ! k # drop (Suc k) xs"
    using assms by (rule id_take_nth_drop)
  then have "filter P xs = filter P (take k xs @ xs ! k # drop (Suc k) xs)" by simp
  then show ?thesis by simp
qed

lemma filter_remove_nth:
  assumes "k < length xs"
  shows "filter P xs =
           (if P (xs ! k) then filter P (take k xs) @ [xs ! k] @ filter P (drop (Suc k) xs)
            else filter P (remove_nth k xs))"
  using filter_split_nth [OF assms, of P] by (simp add: remove_nth_def)

lemma filter_remove_nth_other:
  assumes "k < length xs" and "\<not> P (xs ! k)"
  shows "filter P (remove_nth k xs) = filter P xs"
  using filter_remove_nth [OF assms(1), of P] assms(2) by simp

lemma set_remove_nth: "set (remove_nth k xs) \<subseteq> set xs"
  by (auto simp add: remove_nth_def dest: in_set_takeD in_set_dropD)

lemma filter_single_nth:
  assumes "k < length xs" and "P (xs ! k)" and "length (filter P xs) \<le> 1"
  shows "filter P xs = [xs ! k] \<and> filter P (remove_nth k xs) = []"
proof -
  from filter_split_nth [OF assms(1), of P] assms(2)
  have eq: "filter P xs = filter P (take k xs) @ [xs ! k] @ filter P (drop (Suc k) xs)" by simp
  with assms(3) have "filter P (take k xs) = [] \<and> filter P (drop (Suc k) xs) = []"
    by (cases "filter P (take k xs)"; cases "filter P (drop (Suc k) xs)") simp_all
  with eq show ?thesis by (simp add: remove_nth_def)
qed

lemma length_filter_remove_nth: "length (filter P (remove_nth k xs)) \<le> length (filter P xs)"
proof (cases "k < length xs")
  case True
  from filter_split_nth [OF True, of P] show ?thesis by (simp add: remove_nth_def)
next
  case False
  then show ?thesis by (simp add: remove_nth_def)
qed

lemma tts_inv_initial: "tts_inv initial_chat"
  by (simp add: tts_inv_def initial_chat_def own_def)

lemma tts_inv_bound:
  assumes "tts_inv s"
  shows "\<forall>e \<in> set (tts_pending s) \<union> set (tts_playing s). fst e \<le> mounted s"
  using assms by (simp add: tts_inv_def)

lemma tts_inv_idle:
  assumes "tts_inv s" and "isSpeaking s = None"
  shows "own s (tts_pending s) = []" and "own s (tts_playing s) = []"
proof -
  from assms have none: "\<forall>e \<in> set (own s (tts_pending s)) \<union> set (own s (tts_playing s)). False"
    by (simp add: tts_inv_def)
  have e: "set (own s (tts_pending s)) \<union> set (own s (tts_playing s)) = {}"
  proof (rule equals0I)
    fix y assume "y \<in> set (own s (tts_pending s)) \<union> set (own s (tts_playing s))"
    with none show False by (rule bspec)
  qed
  from e show "own s (tts_pending s) = []" by simp
  from e show "own s (tts_playing s) = []" by simp
qed

lemma tts_inv_handleSpeak:
  assumes "tts_inv s"
  shows "tts_inv (handleSpeak text index s)"
proof (cases "isSpeaking s")
  case None
  from tts_inv_idle [OF assms None] tts_inv_bound [OF assms] None show ?thesis
    by (simp add: tts_inv_def handleSpeak_def own_def ball_Un)
next
  case (Some i)
  with assms show ?thesis by (simp add: handleSpeak_def)
qed

lemma tts_inv_click_speak: "tts_inv s \<Longrightarrow> tts_inv (click_speak idx s)"
  by (auto simp add: click_speak_def tts_inv_handleSpeak split: prod.splits role.splits)

lemma tts_inv_set_messages: "tts_inv s \<Longrightarrow> tts_inv (set_messages msgs s)"
  by (simp add: tts_inv_def set_messages_def own_def)

lemma tts_inv_remount:
  assumes "tts_inv s"
  shows "tts_inv (remount msgs s)"
proof -
  have le: "\<forall>e \<in> set (tts_pending s) \<union> set (tts_playing s). fst e \<le> mounted s"
    using assms by (rule tts_inv_bound)
  have "\<forall>e \<in> set (tts_pending s) \<union> set (tts_playing s). fst e \<noteq> Suc (mounted s)"
  proof
    fix e assume "e \<in> set (tts_pending s) \<union> set (tts_playing s)"
    with le have "fst e \<le> mounted s" by (rule bspec)
    then show "fst e \<noteq> Suc (mounted s)" by simp
  qed
  then have "filter (\<lambda>e. fst e = Suc (mounted s)) (tts_pending s) = []"
    and "filter (\<lambda>e. fst e = Suc (mounted s)) (tts_playing s) = []"
    by (simp_all add: filter_empty_conv ball_Un)
  moreover have "\<forall>e \<in> set (tts_pending s) \<union> set (tts_playing s). fst e \<le> Suc (mounted s)"
  proof
    fix e assume "e \<in> set (tts_pending s) \<union> set (tts_playing s)"
    with le have "fst e \<le> mounted s" by (rule bspec)
    then show "fst e \<le> Suc (mounted s)" by simp
  qed
  ultimately show ?thesis
    by (simp add: tts_inv_def remount_def own_def)
qed

text \<open>What the invariant says about an entry of the mounted instance.\<close>

lemma own_pending_entry:
  assumes "tts_inv s" and "k < length (tts_pending s)"
      and "tts_pending s ! k = (mounted s, tx, index)"
  shows "isSpeaking s = Some index \<and> own s (remove_nth k (tts_pending s)) = [] \<and>
         own s (tts_playing s) = []"
proof -
  have P: "fst (tts_pending s ! k) = mounted s" using assms(3) by simp
  have one: "length (own s (tts_pending s)) + length (own s (tts_playing s)) \<le> 1"
    using assms(1) by (simp add: tts_inv_def)
  then have "length (filter (\<lambda>e. fst e = mounted s) (tts_pending s)) \<le> 1"
    by (simp add: own_def)
  from filter_single_nth [where P = "\<lambda>e. fst e = mounted s", OF assms(2) P this]
  have single: "own s (tts_pending s) = [tts_pending s ! k]"
    and gone: "own s (remove_nth k (tts_pending s)) = []"
    by (simp_all add: own_def)
  from one single have play: "own s (tts_playing s) = []" by simp
  from assms(1) single have "isSpeaking s = Some (snd (snd (tts_pending s ! k)))"
    by (simp add: tts_inv_def)
  with assms(3) gone play show ?thesis by simp
qed

lemma own_playing_entry:
  assumes "tts_inv s" and "k < length (tts_playing s)"
      and "tts_playing s ! k = (mounted s, tx, index)"
  shows "isSpeaking s = Some index \<and> own s (remove_nth k (tts_playing s)) = [] \<and>
         own s (tts_pending s) = []"
proof -
  have P: "fst (tts_playing s ! k) = mounted s" using assms(3) by simp
  have one: "length (own s (tts_pending s)) + length (own s (tts_playing s)) \<le> 1"
    using assms(1) by (simp add: tts_inv_def)
  then have "length (filter (\<lambda>e. fst e = mounted s) (tts_playing s)) \<le> 1"
    by (simp add: own_def)
  from filter_single_nth [where P = "\<lambda>e. fst e = mounted s", OF assms(2) P this]
  have single: "own s (tts_playing s) = [tts_playing s ! k]"
    and gone: "own s (remove_nth k (tts_playing s)) = []"
    by (simp_all add: own_def)
  from one single have pend: "own s (tts_pending s) = []" by simp
  from assms(1) single have "isSpeaking s = Some (snd (snd (tts_playing s ! k)))"
    by (simp add: tts_inv_def)
  with assms(3) gone pend show ?thesis by simp
qed

lemma tts_inv_reply:
  assumes "tts_inv s"
  shows "tts_inv (handleSpeak_reply k r s)"
proof (cases "k < length (tts_pending s)")
  case False
  with assms show ?thesis by (simp add: handleSpeak_reply_def)
next
  case True
  obtain inst tx index where e: "tts_pending s ! k = (inst, tx, index)"
    by (cases "tts_pending s ! k")
  have "tts_pending s ! k \<in> set (tts_pending s) \<union> set (tts_playing s)"
    using True by simp
  with tts_inv_bound [OF assms] have "fst (tts_pending s ! k) \<le> mounted s" by (rule bspec)
  with e have le: "inst \<le> mounted s" by simp
  have sub: "set (remove_nth k (tts_pending s)) \<subseteq> set (tts_pending s)"
    by (rule set_remove_nth)
  have b: "\<forall>e \<in> set (remove_nth k (tts_pending s)) \<union> set (tts_playing s). fst e \<le> mounted s"
    using tts_inv_bound [OF assms] sub by blast
  show ?thesis
  proof (cases "inst = mounted s")
    case own: True
    from own_pending_entry [OF assms True] e own
    have f: "isSpeaking s = Some index" "own s (remove_nth k (tts_pending s)) = []"
      "own s (tts_playing s) = []" by simp_all
    show ?thesis
    proof (cases r)
      case Threw
      with True e own f b show ?thesis
        by (simp add: handleSpeak_reply_def tts_inv_def setIsSpeaking_def own_def ball_Un)
    next
      case NoAudio
      with True e own f b show ?thesis
        by (simp add: handleSpeak_reply_def tts_inv_def own_def ball_Un)
    next
      case BadAudio
      with True e own f b show ?thesis
        by (simp add: handleSpeak_reply_def tts_inv_def setIsSpeaking_def create_context_def
              own_def ball_Un)
    next
      case (Audio data)
      with True e own f b show ?thesis
        by (cases "chat_decodeAudioData data")
           (simp_all add: handleSpeak_reply_def tts_inv_def setIsSpeaking_def create_context_def
              own_def ball_Un)
    qed
  next
    case other: False
    have P: "\<not> fst (tts_pending s ! k) = mounted s" using e other by simp
    have keep: "own s (remove_nth k (tts_pending s)) = own s (tts_pending s)"
      unfolding own_def using True P by (rule filter_remove_nth_other)
    have inv': "tts_inv (s\<lparr>tts_pending := remove_nth k (tts_pending s)\<rparr>)"
      using assms keep b by (simp add: tts_inv_def own_def ball_Un)
    have inv'': "tts_inv (s\<lparr>tts_pending := remove_nth k (tts_pending s),
                            tts_playing := tts_playing s @ [(inst, tx, index)]\<rparr>)"
      using assms keep b le other by (simp add: tts_inv_def own_def ball_Un)
    show ?thesis
    proof (cases r)
      case Threw
      with True e other inv' show ?thesis
        by (simp add: handleSpeak_reply_def setIsSpeaking_def)
    next
      case NoAudio
      with True e other inv' show ?thesis by (simp add: handleSpeak_reply_def)
    next
      case BadAudio
      with True e other inv' show ?thesis
        by (simp add: handleSpeak_reply_def setIsSpeaking_def create_context_def)
    next
      case (Audio data)
      with True e other inv' inv'' show ?thesis
        by (cases "chat_decodeAudioData data")
           (simp_all add: handleSpeak_reply_def setIsSpeaking_def create_context_def)
    qed
  qed
qed

lemma tts_inv_onended:
  assumes "tts_inv s"
  shows "tts_inv (tts_onended k s)"
proof (cases "k < length (tts_playing s)")
  case False
  with assms show ?thesis by (simp add: tts_onended_def)
next
  case True
  obtain inst tx index where e: "tts_playing s ! k = (inst, tx, index)"
    by (cases "tts_playing s ! k")
  have sub: "set (remove_nth k (tts_playing s)) \<subseteq> set (tts_playing s)"
    by (rule set_remove_nth)
  have b: "\<forall>e \<in> set (tts_pending s) \<union> set (remove_nth k (tts_playing s)). fst e \<le> mounted s"
    using tts_inv_bound [OF assms] sub by blast
  show ?thesis
  proof (cases "inst = mounted s")
    case own: True
    from own_playing_entry [OF assms True] e own
    have f: "isSpeaking s = Some index" "own s (remove_nth k (tts_playing s)) = []"
      "own s (tts_pending s) = []" by simp_all
    with True e own b show ?thesis
      by (simp add: tts_onended_def tts_inv_def setIsSpeaking_def own_def ball_Un)
  next
    case other: False
    have P: "\<not> fst (tts_playing s ! k) = mounted s" using e other by simp
    have keep: "own s (remove_nth k (tts_playing s)) = own s (tts_playing s)"
      unfolding own_def using True P by (rule filter_remove_nth_other)
    have "tts_inv (s\<lparr>tts_playing := remove_nth k (tts_playing s)\<rparr>)"
      using assms keep b by (simp add: tts_inv_def own_def ball_Un)
    with True e other show ?thesis
      by (simp add: tts_onended_def setIsSpeaking_def)
  qed
qed

lemma tts_inv_step: "tts_inv s \<Longrightarrow> tts_inv (chat_step e s)"
  by (cases e)
     (simp_all add: tts_inv_click_speak tts_inv_reply tts_inv_onended tts_inv_set_messages
        tts_inv_remount)

lemma tts_inv_run: "tts_inv s \<Longrightarrow> tts_inv (chat_run es s)"
  by (induction es arbitrary: s) (simp_all add: tts_inv_step)

lemma handleSpeak_busy: "isSpeaking s \<noteq> None \<Longrightarrow> handleSpeak text index s = s"
  by (simp add: handleSpeak_def)

text \<open>
  C9 (as amended). In every state the chat component can reach, a \<open>handleSpeak\<close> call
  made while \<open>isSpeaking\<close> is non-null returns the state unchanged (no request is added);
  the mounted instance has at most one request or playing source of its own; and while a
  source that it started is playing, \<open>isSpeaking\<close> holds the index that source was
  requested for.
\<close>

theorem speak_guard:
  "(isSpeaking (chat_run es initial_chat) \<noteq> None \<longrightarrow>
      handleSpeak text index (chat_run es initial_chat) = chat_run es initial_chat) \<and>
   length (own (chat_run es initial_chat) (tts_pending (chat_run es initial_chat))) +
   length (own (chat_run es initial_chat) (tts_playing (chat_run es initial_chat))) \<le> 1 \<and>
   (\<forall>e \<in> set (tts_playing (chat_run es initial_chat)).
      fst e = mounted (chat_run es initial_chat) \<longrightarrow>
      isSpeaking (chat_run es initial_chat) = Some (snd (snd e)))"
proof -
  let ?s = "chat_run es initial_chat"
  have inv: "tts_inv ?s"
    using tts_inv_initial by (rule tts_inv_run)
  then have one: "length (own ?s (tts_pending ?s)) + length (own ?s (tts_playing ?s)) \<le> 1"
    by (simp add: tts_inv_def)
  from inv have "\<forall>e \<in> set (own ?s (tts_playing ?s)). isSpeaking ?s = Some (snd (snd e))"
    by (simp add: tts_inv_def ball_Un)
  then have named: "\<forall>e \<in> set (tts_playing ?s). fst e = mounted ?s \<longrightarrow>
      isSpeaking ?s = Some (snd (snd e))"
    by (auto simp add: own_def)
  from one named handleSpeak_busy show ?thesis by blast
qed

text \<open>
  While the source of message 0 plays, a request to speak message 5 leaves the state as
  it is.
\<close>

theorem speak_guard_witness:
  "isSpeaking (chat_run [SetMessages [(Model, ''a'')], ClickSpeak 0, TtsReply 0 (Audio [0, 0])]
      initial_chat) = Some 0 \<and>
   tts_playing (chat_run [SetMessages [(Model, ''a'')], ClickSpeak 0, TtsReply 0 (Audio [0, 0])]
      initial_chat) = [(0, ''a'', 0)] \<and>
   handleSpeak ''again'' 5
     (chat_run [SetMessages [(Model, ''a'')], ClickSpeak 0, TtsReply 0 (Audio [0, 0])] initial_chat)
     = chat_run [SetMessages [(Model, ''a'')], ClickSpeak 0, TtsReply 0 (Audio [0, 0])] initial_chat"
proof -
  let ?s = "chat_run [SetMessages [(Model, ''a'')], ClickSpeak 0, TtsReply 0 (Audio [0, 0])]
      initial_chat"
  have a: "isSpeaking ?s = Some 0" and b: "tts_playing ?s = [(0, ''a'', 0)]"
    by (simp_all add: initial_chat_def set_messages_def click_speak_def handleSpeak_def
          handleSpeak_reply_def remove_nth_def create_context_def setIsSpeaking_def
          chat_decodeAudioData_def Let_def)
  from speak_guard [of "[SetMessages [(Model, ''a'')], ClickSpeak 0, TtsReply 0 (Audio [0, 0])]"
      "''again''" 5] a b
  show ?thesis by simp
qed

text \<open>
  C9 as stated fails. Message 0 is spoken and its source plays; the component is
  remounted (a switch to the live mode and back), which sets \<open>isSpeaking\<close> to null and
  leaves the source playing; the speaker button of message 1 is then accepted, and two
  sources play at once, \<open>isSpeaking\<close> naming only the second.
\<close>

theorem two_playbacks_counterexample:
  "tts_playing (chat_run
      [SetMessages [(Model, ''a''), (Model, ''b'')], ClickSpeak 0, TtsReply 0 (Audio [0, 0]),
       Remount [(Model, ''a''), (Model, ''b'')], ClickSpeak 1, TtsReply 0 (Audio [0, 0])]
      initial_chat) = [(0, ''a'', 0), (1, ''b'', 1)] \<and>
   isSpeaking (chat_run
      [SetMessages [(Model, ''a''), (Model, ''b'')], ClickSpeak 0, TtsReply 0 (Audio [0, 0]),
       Remount [(Model, ''a''), (Model, ''b'')], ClickSpeak 1, TtsReply 0 (Audio [0, 0])]
      initial_chat) = Some 1"
  by (simp add: initial_chat_def set_messages_def remount_def click_speak_def handleSpeak_def
        handleSpeak_reply_def remove_nth_def create_context_def setIsSpeaking_def
        chat_decodeAudioData_def Let_def)

text \<open>
  The index in \<open>isSpeaking\<close> is a position in the message list: when the current session
  changes while a source plays, the highlighted position holds another message.
\<close>

lemma indicator_after_session_change:
  "tts_playing (chat_run
      [SetMessages [(Model, ''a'')], ClickSpeak 0, TtsReply 0 (Audio [0, 0]),
       SetMessages [(Model, ''x'')]] initial_chat) = [(0, ''a'', 0)] \<and>
   isSpeaking (chat_run
      [SetMessages [(Model, ''a'')], ClickSpeak 0, TtsReply 0 (Audio [0, 0]),
       SetMessages [(Model, ''x'')]] initial_chat) = Some 0 \<and>
   messages (chat_run
      [SetMessages [(Model, ''a'')], ClickSpeak 0, TtsReply 0 (Audio [0, 0]),
       SetMessages [(Model, ''x'')]] initial_chat) ! 0 = (Model, ''x'')"
  by (simp add: initial_chat_def set_messages_def click_speak_def handleSpeak_def
        handleSpeak_reply_def remove_nth_def create_context_def setIsSpeaking_def
        chat_decodeAudioData_def Let_def)


section \<open>Properties of the session restore\<close>

lemma sessions_absent: "initial_sessions JSON_parse None = JArray []"
  by (simp add: initial_sessions_def)

lemma sessions_unparsable:
  "JSON_parse text = None \<Longrightarrow> initial_sessions JSON_parse (Some text) = JArray []"
  unfolding initial_sessions_def by (cases "text = []") simp_all

text \<open>
  C10. If the stored text does not parse, the session list starts as the empty list, and
  so it does if nothing is stored.
\<close>

theorem sessions_fallback:
  "(JSON_parse text = None \<longrightarrow> initial_sessions JSON_parse (Some text) = JArray []) \<and>
   initial_sessions JSON_parse None = JArray []"
  using sessions_absent sessions_unparsable by blast

text \<open>
  With a parser that accepts only the text of the empty array, the truncated text
  \<open>[{\<close> gives the empty list.
\<close>

theorem sessions_fallback_witness:
  "initial_sessions (\<lambda>t. if t = ''[]'' then Some (JArray []) else None) (Some ''[{'') = JArray [] \<and>
   initial_sessions (\<lambda>t. if t = ''[]'' then Some (JArray []) else None) None = JArray []"
proof -
  have "(\<lambda>t. if t = ''[]'' then Some (JArray []) else None) ''[{'' = None" by simp
  with sessions_fallback [of "\<lambda>t. if t = ''[]'' then Some (JArray []) else None" "''[{''"]
  show ?thesis by blast
qed

end
